theory Spec2Isabelle
  imports Complex_Main "HOL-Library.Sublist"
begin

section \<open>Event synthesizer (\<^verbatim>\<open>generate_event\<close>)\<close>

text \<open>
  Python renders an integer inside an f-string in decimal, with a leading minus sign
  for a negative value.
\<close>

definition digit_char :: "nat \<Rightarrow> char" where
  "digit_char d = ''0123456789'' ! d"

function str_nat :: "nat \<Rightarrow> string" where
  "str_nat n = (if n < 10 then [digit_char n] else str_nat (n div 10) @ [digit_char (n mod 10)])"
  by pat_completeness auto
termination
  by (relation "measure id") auto

declare str_nat.simps [simp del]

definition str_int :: "int \<Rightarrow> string" where
  "str_int i = (if i < 0 then CHR ''-'' # str_nat (nat (- i)) else str_nat (nat i))"

text \<open>
  The event is the dictionary literal that \<^verbatim>\<open>generate_event\<close> returns: five fixed keys,
  the last one holding a nested dictionary of four fixed keys.
\<close>

record properties =
  bytes_transferred :: int
  duration_ms :: int
  status_code :: int
  test_group :: string

record event =
  event_id :: string
  event_name :: string
  external_customer_id :: string
  source :: string
  properties :: properties

definition sources :: "string list" where
  "sources = [''web'', ''mobile'']"

definition event_types :: "string list" where
  "event_types = [''gpu_time'']"

text \<open>
  \<^verbatim>\<open>str(uuid4())\<close> draws a fresh random identifier; the drawn value is the first
  argument. The index is a Python integer; \<^verbatim>\<open>%\<close> with a positive divisor is floor
  modulo, which is \<open>mod\<close> on \<^typ>\<open>int\<close>, so both list subscripts are in range.
\<close>

definition generate_event :: "string \<Rightarrow> int \<Rightarrow> event" where
  "generate_event uuid index =
     \<lparr> event_id = uuid,
       event_name = event_types ! nat (index mod int (length event_types)),
       external_customer_id = ''cus_loadtest_5'',
       source = sources ! nat (index mod int (length sources)),
       properties =
         \<lparr> bytes_transferred = 100 + (index mod 1000),
           duration_ms = 50 + (index mod 200),
           status_code = 200 + ((index mod 3) * 100),
           test_group = ''group_'' @ str_int (index mod 10) \<rparr> \<rparr>"

section \<open>Poster (\<^verbatim>\<open>post_event\<close>)\<close>

text \<open>
  One pass through the \<^verbatim>\<open>try\<close> block issues one \<^verbatim>\<open>requests.post\<close>. The call either
  raises (connection error, timeout; the argument is the text of the exception) or
  returns a response, of which the code reads \<^verbatim>\<open>status_code\<close> and \<^verbatim>\<open>text\<close>.
  \<^verbatim>\<open>json.dumps\<close> cannot fail on a dictionary of strings and integers.
\<close>

datatype attempt = Raised string | Response int string

datatype level = INFO | ERROR

text \<open>
  What \<^verbatim>\<open>post_event\<close> does to the outside world, in program order: the request (its
  payload is the serialised event), \<^verbatim>\<open>time.sleep\<close> and the two logger calls.
  The delay is a Python float that starts at \<^verbatim>\<open>0.1\<close> and is only ever doubled; doubling
  a binary floating-point number is exact, so the delays are modelled as rationals.
\<close>

datatype effect = HttpPost event | Sleep rat | Log level string

definition MAX_RETRIES :: nat where
  "MAX_RETRIES = 1"

definition INITIAL_BACKOFF :: rat where
  "INITIAL_BACKOFF = 1 / 10"

text \<open>
  The \<^verbatim>\<open>while retries <= MAX_RETRIES\<close> loop. \<open>replies\<close> holds the outcomes of the requests
  still to come, \<open>replies 0\<close> being the outcome of the next one; the result is the returned
  Boolean with the effects performed. Falling out of the loop returns \<^verbatim>\<open>False\<close>.
\<close>

function post_event_loop :: "nat \<Rightarrow> (nat \<Rightarrow> attempt) \<Rightarrow> event \<Rightarrow> nat \<Rightarrow> rat \<Rightarrow> bool \<times> effect list" where
  "post_event_loop max_retries replies ev retries backoff =
     (if retries \<le> max_retries then
        (case replies 0 of
           Response code body \<Rightarrow>
             if code = 202 then
               (True, [HttpPost ev, Log INFO (''Event ingested successfully: '' @ event_id ev)])
             else if code \<in> set [429, 500] then
               apsnd (\<lambda>tr. HttpPost ev # Sleep backoff # tr)
                 (post_event_loop max_retries (\<lambda>k. replies (Suc k)) ev (retries + 1) (backoff * 2))
             else
               (False, [HttpPost ev,
                        Log ERROR (''Unexpected status code: '' @ str_int code @ '' - '' @ body)])
         | Raised e \<Rightarrow>
             apsnd (\<lambda>tr. HttpPost ev # Log ERROR (''Failed to post event: '' @ e) # Sleep backoff # tr)
               (post_event_loop max_retries (\<lambda>k. replies (Suc k)) ev (retries + 1) (backoff * 2)))
      else (False, []))"
  by pat_completeness auto
termination
  by (relation "measure (\<lambda>(max_retries, replies, ev, retries, backoff). max_retries + 1 - retries)") auto

declare post_event_loop.simps [simp del]

definition post_event :: "(nat \<Rightarrow> attempt) \<Rightarrow> event \<Rightarrow> bool \<times> effect list" where
  "post_event replies ev = post_event_loop MAX_RETRIES replies ev 0 INITIAL_BACKOFF"

section \<open>Batch scheduler (\<^verbatim>\<open>seed_events_clickhouse\<close>)\<close>

datatype py_error = ValueError

text \<open>
  \<^verbatim>\<open>range(start, stop, step)\<close> for a step other than zero: it counts up while below
  \<open>stop\<close> for a positive step and down while above \<open>stop\<close> for a negative one.
  \<^verbatim>\<open>range\<close> raises \<^verbatim>\<open>ValueError\<close> on step zero, which the caller below checks first.
\<close>

function py_range :: "int \<Rightarrow> int \<Rightarrow> int \<Rightarrow> int list" where
  "py_range start stop step =
     (if (0 < step \<and> start < stop) \<or> (step < 0 \<and> stop < start)
      then start # py_range (start + step) stop step
      else [])"
  by pat_completeness auto
termination
  by (relation "measure (\<lambda>(start, stop, step). nat (if 0 < step then stop - start else start - stop))") auto

declare py_range.simps [simp del]

text \<open>
  What the scheduler does, in program order: the two logger calls,
  \<^verbatim>\<open>executor.map(post_event, batch)\<close> for each batch, \<^verbatim>\<open>time.sleep(1)\<close> after it, and
  the shutdown of the executor on leaving the \<^verbatim>\<open>with\<close> block. \<^verbatim>\<open>executor.map\<close> hands
  the calls to the pool and returns an iterator over their results; the code drops the
  iterator, so nothing is awaited there. The shutdown is the one place where the
  scheduler waits for the calls handed over so far.
\<close>

datatype sched_effect = SLog level string | Submit "event list" | SSleep rat | Shutdown

definition NUM_EVENTS :: int where
  "NUM_EVENTS = 1000000"

definition BATCH_SIZE :: int where
  "BATCH_SIZE = 150"

text \<open>
  The total number of events and the batch size are parameters (the module fixes them
  to the two constants above); \<open>uuid j\<close> is the identifier drawn for index \<open>j\<close>.
\<close>

definition seed_events_clickhouse :: "(int \<Rightarrow> string) \<Rightarrow> int \<Rightarrow> int \<Rightarrow> py_error + sched_effect list" where
  "seed_events_clickhouse uuid num_events batch_size =
     (if batch_size = 0 then Inl ValueError
      else Inr
        ([SLog INFO ''Starting event ingestion...'']
         @ concat (map
             (\<lambda>i. [Submit (map (\<lambda>j. generate_event (uuid j) j)
                              (py_range i (min (i + batch_size) num_events) 1)),
                   SSleep 1])
             (py_range 0 num_events batch_size))
         @ [Shutdown, SLog INFO ''Event ingestion completed'']))"

section \<open>Aggregate monitor (\<^verbatim>\<open>monitor_queries\<close>)\<close>

text \<open>
  The five queries of a poll cycle, named after the variables that hold their text.
  \<^verbatim>\<open>client.query\<close> either raises (the argument is the text of the exception) or returns
  a result, of which the code reads \<^verbatim>\<open>result_rows\<close>, a list of rows of scalar values.
\<close>

datatype query = StorageQuery | IngestionLagQuery | SummariseQuery | EventCountQuery | DurationQuery

datatype reply = Fails string | Rows "string list list"

text \<open>
  A log line of the monitor is a fixed message followed by a formatted value: nothing,
  one scalar, a list of rows, or the text of an exception. The effects of the monitor,
  in program order, are the queries sent, the log lines and \<^verbatim>\<open>time.sleep\<close>.
\<close>

datatype logged = Plain | Value string | ResultRows "string list list" | Detail string

datatype mon_effect = Query query | MonLog level string logged | MonSleep rat

definition QUERY_INTERVAL :: rat where
  "QUERY_INTERVAL = 1 / 100"

text \<open>
  A statement of the \<^verbatim>\<open>try\<close> block yields its effects and the exception it raised, if
  any; sequencing stops at the first exception.
\<close>

type_synonym step = "mon_effect list \<times> string option"

definition and_then :: "step \<Rightarrow> step \<Rightarrow> step" where
  "and_then a b = (case a of (tr, Some e) \<Rightarrow> (tr, Some e) | (tr, None) \<Rightarrow> (tr @ fst b, snd b))"

text \<open>
  The first query: \<^verbatim>\<open>result_rows[0][0]\<close> raises \<^verbatim>\<open>IndexError\<close> when there is no row or
  the first row is empty.
\<close>

definition storage_step :: "(query \<Rightarrow> reply) \<Rightarrow> step" where
  "storage_step db =
     (case db StorageQuery of
        Fails e \<Rightarrow> ([Query StorageQuery], Some e)
      | Rows rs \<Rightarrow>
          (case rs of
             [] \<Rightarrow> ([Query StorageQuery], Some ''list index out of range'')
           | r # _ \<Rightarrow>
               (case r of
                  [] \<Rightarrow> ([Query StorageQuery], Some ''tuple index out of range'')
                | v # _ \<Rightarrow>
                    ([Query StorageQuery, MonLog INFO ''Storage Query Result: '' (Value v)], None))))"

definition run_query :: "(query \<Rightarrow> reply) \<Rightarrow> query \<Rightarrow> string \<Rightarrow> step" where
  "run_query db q label =
     (case db q of
        Fails e \<Rightarrow> ([Query q], Some e)
      | Rows rs \<Rightarrow> ([Query q, MonLog INFO label (ResultRows rs)], None))"

definition try_body :: "(query \<Rightarrow> reply) \<Rightarrow> step" where
  "try_body db =
     and_then (storage_step db)
    (and_then (run_query db IngestionLagQuery ''Ingestion Lag Query Result: '')
    (and_then (run_query db SummariseQuery ''Other Query Result: '')
    (and_then (run_query db EventCountQuery ''Other Query Result: '')
              (run_query db DurationQuery ''Duration Query Result: ''))))"

text \<open>
  One pass of \<^verbatim>\<open>while True\<close>: the \<^verbatim>\<open>try\<close> block, the handler of \<^verbatim>\<open>except Exception\<close>,
  then the sleep that follows the \<^verbatim>\<open>try\<close> statement.
\<close>

definition poll_cycle :: "(query \<Rightarrow> reply) \<Rightarrow> mon_effect list" where
  "poll_cycle db =
     (case try_body db of
        (tr, None) \<Rightarrow> tr @ [MonSleep QUERY_INTERVAL]
      | (tr, Some e) \<Rightarrow>
          tr @ [MonLog ERROR ''Failed to execute queries: '' (Detail e), MonSleep QUERY_INTERVAL])"

text \<open>
  The body of \<^verbatim>\<open>while True\<close>. The state of the loop is the number of the cycle and the
  effects so far; \<open>db k\<close> answers the queries of cycle \<open>k\<close>.
\<close>

definition monitor_step :: "(nat \<Rightarrow> query \<Rightarrow> reply) \<Rightarrow> nat \<times> mon_effect list \<Rightarrow> nat \<times> mon_effect list" where
  "monitor_step db s = (Suc (fst s), snd s @ poll_cycle (db (fst s)))"

text \<open>
  The loop has no \<^verbatim>\<open>break\<close> and no \<^verbatim>\<open>return\<close>, and its body lets no exception of a query
  through, so it is run on fuel: one unit of fuel pays for one pass of the body, and the
  result is the state the loop is in when the fuel is used up.
\<close>

fun monitor_loop :: "nat \<Rightarrow> (nat \<Rightarrow> query \<Rightarrow> reply) \<Rightarrow> nat \<times> mon_effect list \<Rightarrow> nat \<times> mon_effect list" where
  "monitor_loop 0 db s = s"
| "monitor_loop (Suc fuel) db s = monitor_loop fuel db (monitor_step db s)"

text \<open>
  \<^verbatim>\<open>get_client\<close> is called once, before the loop and outside any \<^verbatim>\<open>try\<close>: an
  exception it raises leaves \<^verbatim>\<open>monitor_queries\<close>. Otherwise the call is still polling
  when the fuel is used up.
\<close>

datatype connect = Connected | Refused string

datatype monitor_outcome = ConnectFailed string | StillPolling "nat \<times> mon_effect list"

definition monitor_start :: "mon_effect list" where
  "monitor_start = [MonLog INFO ''Connecting to ClickHouse...'' Plain,
                    MonLog INFO ''Starting query monitoring...'' Plain]"

definition monitor_queries :: "nat \<Rightarrow> connect \<Rightarrow> (nat \<Rightarrow> query \<Rightarrow> reply) \<Rightarrow> monitor_outcome" where
  "monitor_queries fuel conn db =
     (case conn of
        Refused e \<Rightarrow> ConnectFailed e
      | Connected \<Rightarrow> StillPolling (monitor_loop fuel db (0, monitor_start)))"

section \<open>Observations on effect traces\<close>

text \<open>
  The retry condition of the code itself: an attempt after which the loop goes round
  again, which is one that raised or returned status 429 or 500 (and no other status).
\<close>

fun retried :: "attempt \<Rightarrow> bool" where
  "retried (Raised e) = True"
| "retried (Response code body) = (code \<in> set [429, 500])"

fun requests_of :: "effect list \<Rightarrow> event list" where
  "requests_of [] = []"
| "requests_of (HttpPost ev # tr) = ev # requests_of tr"
| "requests_of (_ # tr) = requests_of tr"

fun sleeps_of :: "effect list \<Rightarrow> rat list" where
  "sleeps_of [] = []"
| "sleeps_of (Sleep d # tr) = d # sleeps_of tr"
| "sleeps_of (_ # tr) = sleeps_of tr"

fun logs_of :: "effect list \<Rightarrow> (level \<times> string) list" where
  "logs_of [] = []"
| "logs_of (Log l m # tr) = (l, m) # logs_of tr"
| "logs_of (_ # tr) = logs_of tr"

fun is_log :: "effect \<Rightarrow> bool" where
  "is_log (Log l m) = True"
| "is_log _ = False"

text \<open>The effects of one pass that ends in a retry, and of a run of such passes.\<close>

fun failed_attempt :: "event \<Rightarrow> rat \<Rightarrow> attempt \<Rightarrow> effect list" where
  "failed_attempt ev d (Raised e) = [HttpPost ev, Log ERROR (''Failed to post event: '' @ e), Sleep d]"
| "failed_attempt ev d (Response code body) = [HttpPost ev, Sleep d]"

fun failed_attempts :: "event \<Rightarrow> rat \<Rightarrow> attempt list \<Rightarrow> effect list" where
  "failed_attempts ev d [] = []"
| "failed_attempts ev d (a # as) = failed_attempt ev d a @ failed_attempts ev (d * 2) as"

fun raised_line :: "attempt \<Rightarrow> (level \<times> string) list" where
  "raised_line (Raised e) = [(ERROR, ''Failed to post event: '' @ e)]"
| "raised_line (Response code body) = []"

text \<open>Endpoints for concrete runs: one that always answers the same, one that follows a script.\<close>

definition always_reply :: "attempt \<Rightarrow> nat \<Rightarrow> attempt" where
  "always_reply a k = a"

definition scripted :: "attempt list \<Rightarrow> attempt \<Rightarrow> nat \<Rightarrow> attempt" where
  "scripted as a k = (if k < length as then as ! k else a)"

definition sample_event :: event where
  "sample_event = generate_event ''evt-0001'' 7"

text \<open>The batches handed to the executor, in order.\<close>

fun submitted :: "sched_effect list \<Rightarrow> event list list" where
  "submitted [] = []"
| "submitted (Submit b # tr) = b # submitted tr"
| "submitted (_ # tr) = submitted tr"

definition batches :: "py_error + sched_effect list \<Rightarrow> event list list" where
  "batches r = (case r of Inl e \<Rightarrow> [] | Inr tr \<Rightarrow> submitted tr)"

definition fixed_uuid :: "int \<Rightarrow> string" where
  "fixed_uuid j = ''id-'' @ str_int j"

text \<open>
  The effects of a run that raised nothing; the effect that directly follows each
  hand-over of a batch; and the reading of "the scheduler waits for every batch to
  settle before it sleeps": what follows each hand-over is a wait.
\<close>

definition effects_of :: "py_error + sched_effect list \<Rightarrow> sched_effect list" where
  "effects_of r = (case r of Inl e \<Rightarrow> [] | Inr tr \<Rightarrow> tr)"

fun after_submit :: "sched_effect list \<Rightarrow> sched_effect list" where
  "after_submit [] = []"
| "after_submit [x] = []"
| "after_submit (Submit b # x # tr) = x # after_submit (x # tr)"
| "after_submit (_ # x # tr) = after_submit (x # tr)"

fun is_join :: "sched_effect \<Rightarrow> bool" where
  "is_join Shutdown = True"
| "is_join _ = False"

definition settles_each_batch :: "sched_effect list \<Rightarrow> bool" where
  "settles_each_batch tr = list_all is_join (after_submit tr)"

text \<open>An effect without its payload, but for the size of a batch.\<close>

datatype sched_step = LogStep | SubmitStep nat | SleepStep | JoinStep

fun step_of :: "sched_effect \<Rightarrow> sched_step" where
  "step_of (SLog l m) = LogStep"
| "step_of (Submit b) = SubmitStep (length b)"
| "step_of (SSleep d) = SleepStep"
| "step_of Shutdown = JoinStep"


text \<open>Projections of the monitor's effects, and the exception a reply makes its step raise.\<close>

fun queries_of :: "mon_effect list \<Rightarrow> query list" where
  "queries_of [] = []"
| "queries_of (Query q # tr) = q # queries_of tr"
| "queries_of (_ # tr) = queries_of tr"

fun mon_logs_of :: "mon_effect list \<Rightarrow> (level \<times> string \<times> logged) list" where
  "mon_logs_of [] = []"
| "mon_logs_of (MonLog l m p # tr) = (l, m, p) # mon_logs_of tr"
| "mon_logs_of (_ # tr) = mon_logs_of tr"

fun mon_sleeps_of :: "mon_effect list \<Rightarrow> rat list" where
  "mon_sleeps_of [] = []"
| "mon_sleeps_of (MonSleep d # tr) = d # mon_sleeps_of tr"
| "mon_sleeps_of (_ # tr) = mon_sleeps_of tr"

definition query_order :: "query list" where
  "query_order = [StorageQuery, IngestionLagQuery, SummariseQuery, EventCountQuery, DurationQuery]"

fun raises :: "query \<Rightarrow> reply \<Rightarrow> string option" where
  "raises q (Fails e) = Some e"
| "raises StorageQuery (Rows []) = Some ''list index out of range''"
| "raises StorageQuery (Rows ([] # rs)) = Some ''tuple index out of range''"
| "raises q (Rows rs) = None"

fun first_raise :: "(query \<Rightarrow> reply) \<Rightarrow> query list \<Rightarrow> string option" where
  "first_raise d [] = None"
| "first_raise d (q # qs) = (case raises q (d q) of Some e \<Rightarrow> Some e | None \<Rightarrow> first_raise d qs)"

definition flaky :: "nat \<Rightarrow> query \<Rightarrow> reply" where
  "flaky k q = (if k = 2 \<and> q = SummariseQuery then Fails ''connection reset''
                else Rows [[''42'', ''7'']])"

definition error_lines :: "(level \<times> string \<times> logged) list \<Rightarrow> (level \<times> string \<times> logged) list" where
  "error_lines ls = filter (\<lambda>l. fst l = ERROR) ls"


section \<open>Properties of the synthesizer\<close>

lemma str_int_digit: "0 \<le> d \<Longrightarrow> d < 10 \<Longrightarrow> str_int d = [digit_char (nat d)]"
  by (simp add: str_int_def str_nat.simps)

text \<open>
  Claim C7. Every field of the synthesized event other than the identifier is a function
  of the index alone: the four properties follow the stated formulas, the test group is
  \<open>group_\<close> followed by the single decimal digit of \<open>i mod 10\<close>, the source alternates
  between the two entries of the fixed list by \<open>i mod 2\<close>, and two calls at the same index
  differ at most in the identifier that was drawn.
\<close>

theorem generate_event_deterministic:
  "bytes_transferred (properties (generate_event u i)) = 100 + (i mod 1000)
   \<and> duration_ms (properties (generate_event u i)) = 50 + (i mod 200)
   \<and> status_code (properties (generate_event u i)) = 200 + (i mod 3) * 100
   \<and> test_group (properties (generate_event u i)) = ''group_'' @ str_int (i mod 10)
   \<and> str_int (i mod 10) = [digit_char (nat (i mod 10))]
   \<and> source (generate_event u i) = sources ! nat (i mod int (length sources))
   \<and> source (generate_event u i) = (if i mod 2 = 0 then ''web'' else ''mobile'')
   \<and> generate_event u i = (generate_event u' i)\<lparr>event_id := u\<rparr>
   \<and> event_id (generate_event u i) = u"
proof -
  have d: "str_int (i mod 10) = [digit_char (nat (i mod 10))]"
    by (rule str_int_digit) simp_all
  have "i mod 2 = 0 \<or> i mod 2 = 1" by presburger
  then have s: "sources ! nat (i mod int (length sources)) = (if i mod 2 = 0 then ''web'' else ''mobile'')"
    by (auto simp: sources_def)
  show ?thesis using d s by (simp add: generate_event_def)
qed

text \<open>
  Claim C10. Whatever the index, the event name is \<open>gpu_time\<close> (the list of event types
  has exactly one entry) and the external customer identifier is \<open>cus_loadtest_5\<close>.
\<close>

theorem generate_event_constants:
  "event_name (generate_event u i) = ''gpu_time''
   \<and> external_customer_id (generate_event u i) = ''cus_loadtest_5''
   \<and> set event_types = {''gpu_time''}"
  by (simp add: generate_event_def event_types_def)

section \<open>Properties of the poster\<close>

subsection \<open>Unrolling the retry loop\<close>

lemma requests_of_append: "requests_of (xs @ ys) = requests_of xs @ requests_of ys"
  by (induction xs rule: requests_of.induct) simp_all

lemma sleeps_of_append: "sleeps_of (xs @ ys) = sleeps_of xs @ sleeps_of ys"
  by (induction xs rule: sleeps_of.induct) simp_all

lemma logs_of_append: "logs_of (xs @ ys) = logs_of xs @ logs_of ys"
  by (induction xs rule: logs_of.induct) simp_all

lemma loop_exhausted:
  "max_retries < retries \<Longrightarrow> post_event_loop max_retries replies ev retries backoff = (False, [])"
  by (simp add: post_event_loop.simps)

lemma loop_first_response:
  assumes "retries \<le> max_retries" and "replies 0 = Response code body"
  shows "post_event_loop max_retries replies ev retries backoff =
     (if code = 202 then
        (True, [HttpPost ev, Log INFO (''Event ingested successfully: '' @ event_id ev)])
      else if code \<in> set [429, 500] then
        apsnd (\<lambda>tr. HttpPost ev # Sleep backoff # tr)
          (post_event_loop max_retries (\<lambda>k. replies (Suc k)) ev (retries + 1) (backoff * 2))
      else
        (False, [HttpPost ev,
                 Log ERROR (''Unexpected status code: '' @ str_int code @ '' - '' @ body)]))"
  using assms by (subst post_event_loop.simps) simp

lemma loop_retry_step:
  assumes "retries \<le> max_retries" and "retried (replies 0)"
  shows "post_event_loop max_retries replies ev retries backoff =
         apsnd (\<lambda>tr. failed_attempt ev backoff (replies 0) @ tr)
           (post_event_loop max_retries (\<lambda>k. replies (Suc k)) ev (Suc retries) (backoff * 2))"
proof (cases "replies 0")
  case (Raised e)
  with assms(1) show ?thesis
    by (subst post_event_loop.simps) simp
next
  case (Response code body)
  with assms show ?thesis
    by (subst post_event_loop.simps) auto
qed

lemma loop_retry_prefix:
  assumes "retries + n \<le> max_retries + 1" and "\<forall>k<n. retried (replies k)"
  shows "post_event_loop max_retries replies ev retries backoff =
         apsnd (\<lambda>tr. failed_attempts ev backoff (map replies [0..<n]) @ tr)
           (post_event_loop max_retries (\<lambda>k. replies (n + k)) ev (retries + n) (backoff * 2 ^ n))"
  using assms
proof (induction n arbitrary: replies retries backoff)
  case 0
  then show ?case by (simp add: apsnd_def map_prod_def case_prod_beta)
next
  case (Suc n)
  have r: "retries \<le> max_retries" and r0: "retried (replies 0)"
    using Suc.prems by auto
  have ih: "post_event_loop max_retries (\<lambda>k. replies (Suc k)) ev (Suc retries) (backoff * 2) =
        apsnd (\<lambda>tr. failed_attempts ev (backoff * 2) (map (\<lambda>k. replies (Suc k)) [0..<n]) @ tr)
          (post_event_loop max_retries (\<lambda>k. replies (Suc (n + k))) ev (Suc retries + n) (backoff * 2 * 2 ^ n))"
    using Suc.IH [of "Suc retries" "\<lambda>k. replies (Suc k)" "backoff * 2"] Suc.prems by auto
  have m: "map replies [0..<Suc n] = replies 0 # map (\<lambda>k. replies (Suc k)) [0..<n]"
    by (simp only: map_upt_Suc)
  have step: "post_event_loop max_retries replies ev retries backoff =
         apsnd (\<lambda>tr. failed_attempt ev backoff (replies 0) @ tr)
           (post_event_loop max_retries (\<lambda>k. replies (Suc k)) ev (Suc retries) (backoff * 2))"
    using r r0 by (rule loop_retry_step)
  show ?case
    unfolding step ih m
    by (simp add: apsnd_def map_prod_def split_def mult.assoc)
qed

lemma loop_after_retries:
  assumes "n \<le> max_retries" and "\<forall>k<n. retried (replies k)"
  shows "post_event_loop max_retries replies ev 0 backoff =
         apsnd (\<lambda>tr. failed_attempts ev backoff (map replies [0..<n]) @ tr)
           (post_event_loop max_retries (\<lambda>k. replies (n + k)) ev n (backoff * 2 ^ n))"
proof -
  have "0 + n \<le> max_retries + 1" using assms(1) by simp
  from loop_retry_prefix [where replies = replies and ev = ev and backoff = backoff, OF this assms(2)]
  show ?thesis by simp
qed

lemma loop_all_retried:
  assumes "\<forall>k\<le>max_retries. retried (replies k)"
  shows "post_event_loop max_retries replies ev 0 backoff =
         (False, failed_attempts ev backoff (map replies [0..<max_retries + 1]))"
proof -
  have "\<forall>k<max_retries + 1. retried (replies k)" using assms by auto
  then have "post_event_loop max_retries replies ev 0 backoff =
      apsnd (\<lambda>tr. failed_attempts ev backoff (map replies [0..<max_retries + 1]) @ tr)
        (post_event_loop max_retries (\<lambda>k. replies (max_retries + 1 + k)) ev (0 + (max_retries + 1))
           (backoff * 2 ^ (max_retries + 1)))"
    by (intro loop_retry_prefix) simp_all
  then show ?thesis by (simp add: loop_exhausted)
qed

lemma requests_of_failed_attempts:
  "requests_of (failed_attempts ev d as) = replicate (length as) ev"
proof (induction as arbitrary: d)
  case Nil
  show ?case by simp
next
  case (Cons a as)
  then show ?case by (cases a) (simp_all add: requests_of_append)
qed

lemma sleeps_of_failed_attempts:
  "sleeps_of (failed_attempts ev d as) = map (\<lambda>k. d * 2 ^ k) [0..<length as]"
proof (induction as arbitrary: d)
  case Nil
  show ?case by simp
next
  case (Cons a as)
  have "sleeps_of (failed_attempt ev d a) = [d]" by (cases a) simp_all
  with Cons show ?case
    by (simp add: sleeps_of_append map_upt_Suc mult.assoc del: upt_Suc)
qed

lemma logs_of_failed_attempts:
  "logs_of (failed_attempts ev d as) = concat (map raised_line as)"
proof (induction as arbitrary: d)
  case Nil
  show ?case by simp
next
  case (Cons a as)
  have "logs_of (failed_attempt ev d a) = raised_line a" by (cases a) simp_all
  with Cons show ?case by (simp add: logs_of_append)
qed

lemma schedule_of_failed_attempts:
  "filter (\<lambda>x. \<not> is_log x) (failed_attempts ev d as) =
   concat (map (\<lambda>k. [HttpPost ev, Sleep (d * 2 ^ k)]) [0..<length as])"
proof (induction as arbitrary: d)
  case Nil
  show ?case by simp
next
  case (Cons a as)
  have "filter (\<lambda>x. \<not> is_log x) (failed_attempt ev d a) = [HttpPost ev, Sleep d]"
    by (cases a) simp_all
  with Cons show ?case
    by (simp add: map_upt_Suc mult.assoc del: upt_Suc)
qed

subsection \<open>Classification of the response status\<close>

text \<open>
  Claim C1, as the code has it. In a pass of the loop whose request returns status
  \<open>code\<close>: the pass ends the call with \<^verbatim>\<open>True\<close> and the success line exactly when
  \<open>code = 202\<close>; the pass sleeps the current delay and goes round again exactly when
  \<open>code\<close> is 429 or 500; and the pass ends the call with \<^verbatim>\<open>False\<close> and the line
  \<open>Unexpected status code\<close>, without a retry, exactly when \<open>code\<close> is none of 202, 429, 500.
\<close>

theorem post_event_classifies_status:
  assumes "retries \<le> max_retries" and "replies 0 = Response code body"
  shows "((post_event_loop max_retries replies ev retries backoff
            = (True, [HttpPost ev, Log INFO (''Event ingested successfully: '' @ event_id ev)]))
          = (code = 202))
     \<and> ((post_event_loop max_retries replies ev retries backoff
            = apsnd (\<lambda>tr. HttpPost ev # Sleep backoff # tr)
                (post_event_loop max_retries (\<lambda>k. replies (Suc k)) ev (retries + 1) (backoff * 2)))
          = (code = 429 \<or> code = 500))
     \<and> ((post_event_loop max_retries replies ev retries backoff
            = (False, [HttpPost ev,
                       Log ERROR (''Unexpected status code: '' @ str_int code @ '' - '' @ body)]))
          = (code \<noteq> 202 \<and> code \<noteq> 429 \<and> code \<noteq> 500))"
proof -
  obtain r tr where rest:
    "post_event_loop max_retries (\<lambda>k. replies (Suc k)) ev (retries + 1) (backoff * 2) = (r, tr)"
    by (cases "post_event_loop max_retries (\<lambda>k. replies (Suc k)) ev (retries + 1) (backoff * 2)")
  note first = loop_first_response [where replies = replies and ev = ev and backoff = backoff, OF assms]
  show ?thesis
    unfolding first rest
    by auto
qed

theorem post_event_classifies_status_witness:
  "post_event (always_reply (Response 202 ''Accepted'')) sample_event
     = (True, [HttpPost sample_event, Log INFO ''Event ingested successfully: evt-0001''])
   \<and> post_event_loop 1 (always_reply (Response 429 ''slow down'')) sample_event 0 (1 / 10)
     = apsnd (\<lambda>tr. HttpPost sample_event # Sleep (1 / 10) # tr)
         (post_event_loop 1 (\<lambda>k. always_reply (Response 429 ''slow down'') (Suc k)) sample_event (0 + 1) (1 / 10 * 2))
   \<and> post_event (always_reply (Response 404 ''Not Found'')) sample_event
     = (False, [HttpPost sample_event, Log ERROR ''Unexpected status code: 404 - Not Found''])"
proof -
  have a: "always_reply (Response 202 ''Accepted'') 0 = Response 202 ''Accepted''"
    and b: "always_reply (Response 429 ''slow down'') 0 = Response 429 ''slow down''"
    and c: "always_reply (Response 404 ''Not Found'') 0 = Response 404 ''Not Found''"
    by (simp_all add: always_reply_def)
  have le: "(0::nat) \<le> 1" by simp
  have s: "str_int 404 = ''404''"
    by (simp add: str_int_def str_nat.simps digit_char_def)
  have i: "event_id sample_event = ''evt-0001''"
    by (simp add: sample_event_def generate_event_def)
  show ?thesis
    using post_event_classifies_status
        [where replies = "always_reply (Response 202 ''Accepted'')"
           and ev = sample_event and backoff = "1 / 10", OF le a]
      post_event_classifies_status
        [where replies = "always_reply (Response 429 ''slow down'')"
           and ev = sample_event and backoff = "1 / 10", OF le b]
      post_event_classifies_status
        [where replies = "always_reply (Response 404 ''Not Found'')"
           and ev = sample_event and backoff = "1 / 10", OF le c]
    by (simp add: post_event_def MAX_RETRIES_def INITIAL_BACKOFF_def s i)
qed

text \<open>
  Claim C1 as stated fails: status 200 lies in the 2xx range and status 503 in the 5xx
  range, yet on either the call issues one request, logs \<open>Unexpected status code\<close> and
  returns \<^verbatim>\<open>False\<close>; 200 is not accepted and 503 is not retried.
\<close>

theorem post_event_status_counterexample:
  "(200::int) \<le> 200 \<and> (200::int) < 300
   \<and> post_event (always_reply (Response 200 ''OK'')) sample_event
       = (False, [HttpPost sample_event, Log ERROR ''Unexpected status code: 200 - OK''])
   \<and> (500::int) \<le> 503 \<and> (503::int) \<le> 599
   \<and> post_event (always_reply (Response 503 ''Service Unavailable'')) sample_event
       = (False, [HttpPost sample_event, Log ERROR ''Unexpected status code: 503 - Service Unavailable''])"
  by (simp add: post_event_def MAX_RETRIES_def INITIAL_BACKOFF_def post_event_loop.simps
      always_reply_def str_int_def str_nat.simps digit_char_def)

subsection \<open>Exhausting the retry budget\<close>

text \<open>
  Claim C5, as the code has it. When each of the first \<open>max_retries + 1\<close> attempts raises
  or returns status 429 or 500, the call returns \<^verbatim>\<open>False\<close> after exactly
  \<open>max_retries + 1\<close> requests. Requests and sleeps alternate, and the sleep that follows
  request number \<open>k\<close> (counted from 0) lasts \<open>backoff * 2 ^ k\<close>: the delay before the
  \<open>k\<close>-th re-attempt is the initial delay times \<open>2 ^ (k - 1)\<close>. With the constants of the
  module the budget is 1 and the initial delay a tenth of a second.
\<close>

theorem post_event_exhausts_budget:
  assumes "\<forall>k\<le>max_retries. retried (replies k)"
  shows "fst (post_event_loop max_retries replies ev 0 backoff) = False
     \<and> requests_of (snd (post_event_loop max_retries replies ev 0 backoff))
         = replicate (max_retries + 1) ev
     \<and> sleeps_of (snd (post_event_loop max_retries replies ev 0 backoff))
         = map (\<lambda>k. backoff * 2 ^ k) [0..<max_retries + 1]
     \<and> filter (\<lambda>x. \<not> is_log x) (snd (post_event_loop max_retries replies ev 0 backoff))
         = concat (map (\<lambda>k. [HttpPost ev, Sleep (backoff * 2 ^ k)]) [0..<max_retries + 1])
     \<and> post_event replies ev = post_event_loop 1 replies ev 0 (1 / 10)"
  unfolding loop_all_retried [OF assms]
  by (simp add: requests_of_failed_attempts sleeps_of_failed_attempts
      schedule_of_failed_attempts post_event_def MAX_RETRIES_def INITIAL_BACKOFF_def del: upt_Suc)

theorem post_event_exhausts_budget_witness:
  "retried (always_reply (Response 500 ''oops'') 0)
   \<and> retried (always_reply (Response 500 ''oops'') 1)
   \<and> post_event (always_reply (Response 500 ''oops'')) sample_event
       = (False, [HttpPost sample_event, Sleep (1 / 10), HttpPost sample_event, Sleep (1 / 5)])
   \<and> requests_of (snd (post_event_loop 1 (always_reply (Response 500 ''oops'')) sample_event 0 (1 / 10)))
       = [sample_event, sample_event]
   \<and> sleeps_of (snd (post_event_loop 1 (always_reply (Response 500 ''oops'')) sample_event 0 (1 / 10)))
       = [1 / 10, 1 / 5]"
proof -
  have h: "\<forall>k\<le>1. retried (always_reply (Response 500 ''oops'') k)"
    by (simp add: always_reply_def)
  have p: "post_event (always_reply (Response 500 ''oops'')) sample_event
       = (False, [HttpPost sample_event, Sleep (1 / 10), HttpPost sample_event, Sleep (1 / 5)])"
    by (simp add: post_event_def MAX_RETRIES_def INITIAL_BACKOFF_def post_event_loop.simps always_reply_def)
  have r: "retried (always_reply (Response 500 ''oops'') 0)"
    "retried (always_reply (Response 500 ''oops'') 1)"
    by (simp_all add: always_reply_def)
  show ?thesis
    using post_event_exhausts_budget [OF h, of sample_event "1 / 10"] p r
    by simp
qed

text \<open>
  Claim C5 as stated fails for the other statuses of the 5xx range: with an endpoint that
  answers 503 to every attempt, the call makes one request, not the two of the budget,
  and sleeps not at all.
\<close>

theorem post_event_other_5xx_counterexample:
  "(500::int) \<le> 503 \<and> (503::int) \<le> 599
   \<and> MAX_RETRIES + 1 = 2
   \<and> post_event (always_reply (Response 503 ''Service Unavailable'')) sample_event
       = (False, [HttpPost sample_event, Log ERROR ''Unexpected status code: 503 - Service Unavailable''])
   \<and> requests_of (snd (post_event (always_reply (Response 503 ''Service Unavailable'')) sample_event))
       = [sample_event]
   \<and> sleeps_of (snd (post_event (always_reply (Response 503 ''Service Unavailable'')) sample_event))
       = []"
  by (simp add: post_event_def MAX_RETRIES_def INITIAL_BACKOFF_def post_event_loop.simps
      always_reply_def str_int_def str_nat.simps digit_char_def)

subsection \<open>A status that is not retried\<close>

text \<open>
  Claim C6. When the first request returns a status that is neither 202 nor 429 nor 500
  (400, say), the call issues that one request, logs the status, sleeps not at all and
  returns \<^verbatim>\<open>False\<close>, whatever the retry budget.
\<close>

theorem post_event_rejected_once:
  assumes "replies 0 = Response code body" and "code \<noteq> 202" and "code \<notin> set [429, 500]"
  shows "post_event_loop max_retries replies ev 0 backoff
           = (False, [HttpPost ev,
                      Log ERROR (''Unexpected status code: '' @ str_int code @ '' - '' @ body)])
     \<and> fst (post_event_loop max_retries replies ev 0 backoff) = False
     \<and> requests_of (snd (post_event_loop max_retries replies ev 0 backoff)) = [ev]
     \<and> sleeps_of (snd (post_event_loop max_retries replies ev 0 backoff)) = []"
proof -
  have "post_event_loop max_retries replies ev 0 backoff
           = (False, [HttpPost ev,
                      Log ERROR (''Unexpected status code: '' @ str_int code @ '' - '' @ body)])"
    using assms by (subst post_event_loop.simps) simp
  then show ?thesis by simp
qed

theorem post_event_rejected_once_witness:
  "always_reply (Response 400 ''Bad Request'') 0 = Response 400 ''Bad Request''
   \<and> (400::int) \<noteq> 202 \<and> (400::int) \<notin> set [429, 500]
   \<and> post_event_loop 5 (always_reply (Response 400 ''Bad Request'')) sample_event 0 (1 / 10)
       = (False, [HttpPost sample_event, Log ERROR ''Unexpected status code: 400 - Bad Request''])
   \<and> requests_of (snd (post_event_loop 5 (always_reply (Response 400 ''Bad Request'')) sample_event 0 (1 / 10)))
       = [sample_event]
   \<and> sleeps_of (snd (post_event_loop 5 (always_reply (Response 400 ''Bad Request'')) sample_event 0 (1 / 10)))
       = []"
proof -
  have a: "always_reply (Response 400 ''Bad Request'') 0 = Response 400 ''Bad Request''"
    by (simp add: always_reply_def)
  have b: "(400::int) \<noteq> 202" and c: "(400::int) \<notin> set [429, 500]" by simp_all
  have s: "str_int 400 = ''400''"
    by (simp add: str_int_def str_nat.simps digit_char_def)
  show ?thesis
    using post_event_rejected_once
        [where replies = "always_reply (Response 400 ''Bad Request'')" and max_retries = 5
           and ev = sample_event and backoff = "1 / 10", OF a b c] a
    by (simp add: s)
qed

subsection \<open>Log lines\<close>

text \<open>
  Claim C3, as the code has it. Let the first \<open>n\<close> attempts end in a retry, with
  \<open>n \<le> max_retries\<close>. Each of them that raised has logged one line
  \<open>Failed to post event\<close> with the text of the exception; one that returned 429 or 500 has
  logged nothing. Then:
  \<^item> if attempt \<open>n\<close> returns 202, the call returns \<^verbatim>\<open>True\<close> and adds exactly one line, at
    level INFO, which ends in the event identifier;
  \<^item> if attempt \<open>n\<close> returns a status other than 202, 429 and 500, the call returns
    \<^verbatim>\<open>False\<close> and adds exactly one line, at level ERROR, made of the status code and
    the response text;
  \<^item> if attempt \<open>n\<close> is the last of the budget and ends in a retry too, the call returns
    \<^verbatim>\<open>False\<close> and adds no line for that outcome.
\<close>

theorem post_event_log_lines:
  assumes "n \<le> max_retries" and "\<forall>k<n. retried (replies k)"
  shows "(replies n = Response 202 body \<longrightarrow>
            fst (post_event_loop max_retries replies ev 0 backoff) = True
          \<and> logs_of (snd (post_event_loop max_retries replies ev 0 backoff))
              = concat (map raised_line (map replies [0..<n]))
                @ [(INFO, ''Event ingested successfully: '' @ event_id ev)])
     \<and> (replies n = Response code body \<and> code \<noteq> 202 \<and> code \<noteq> 429 \<and> code \<noteq> 500 \<longrightarrow>
            fst (post_event_loop max_retries replies ev 0 backoff) = False
          \<and> logs_of (snd (post_event_loop max_retries replies ev 0 backoff))
              = concat (map raised_line (map replies [0..<n]))
                @ [(ERROR, ''Unexpected status code: '' @ str_int code @ '' - '' @ body)])
     \<and> (n = max_retries \<and> retried (replies n) \<longrightarrow>
            fst (post_event_loop max_retries replies ev 0 backoff) = False
          \<and> logs_of (snd (post_event_loop max_retries replies ev 0 backoff))
              = concat (map raised_line (map replies [0..<n + 1])))"
proof (intro conjI impI)
  note pre = loop_after_retries [where ev = ev and backoff = backoff, OF assms]
  {
    assume a: "replies n = Response 202 body"
    then have "(\<lambda>k. replies (n + k)) 0 = Response 202 body" by simp
    from loop_first_response [where replies = "\<lambda>k. replies (n + k)" and ev = ev
        and backoff = "backoff * 2 ^ n", OF assms(1) this]
    have l: "post_event_loop max_retries replies ev 0 backoff =
        (True, failed_attempts ev backoff (map replies [0..<n])
               @ [HttpPost ev, Log INFO (''Event ingested successfully: '' @ event_id ev)])"
      unfolding pre by simp
    show "fst (post_event_loop max_retries replies ev 0 backoff) = True"
      unfolding l by simp
    show "logs_of (snd (post_event_loop max_retries replies ev 0 backoff))
              = concat (map raised_line (map replies [0..<n]))
                @ [(INFO, ''Event ingested successfully: '' @ event_id ev)]"
      unfolding l by (simp add: logs_of_append logs_of_failed_attempts)
  }
  {
    assume a: "replies n = Response code body \<and> code \<noteq> 202 \<and> code \<noteq> 429 \<and> code \<noteq> 500"
    then have "(\<lambda>k. replies (n + k)) 0 = Response code body" by simp
    from loop_first_response [where replies = "\<lambda>k. replies (n + k)" and ev = ev
        and backoff = "backoff * 2 ^ n", OF assms(1) this]
    have l: "post_event_loop max_retries replies ev 0 backoff =
        (False, failed_attempts ev backoff (map replies [0..<n])
               @ [HttpPost ev, Log ERROR (''Unexpected status code: '' @ str_int code @ '' - '' @ body)])"
      unfolding pre using a by simp
    show "fst (post_event_loop max_retries replies ev 0 backoff) = False"
      unfolding l by simp
    show "logs_of (snd (post_event_loop max_retries replies ev 0 backoff))
              = concat (map raised_line (map replies [0..<n]))
                @ [(ERROR, ''Unexpected status code: '' @ str_int code @ '' - '' @ body)]"
      unfolding l by (simp add: logs_of_append logs_of_failed_attempts)
  }
  {
    assume a: "n = max_retries \<and> retried (replies n)"
    have "\<forall>k\<le>max_retries. retried (replies k)"
    proof (intro allI impI)
      fix k assume "k \<le> max_retries"
      then have "k < n \<or> k = n" using a by auto
      then show "retried (replies k)" using a assms(2) by auto
    qed
    from loop_all_retried [where ev = ev and backoff = backoff, OF this]
    have l: "post_event_loop max_retries replies ev 0 backoff =
         (False, failed_attempts ev backoff (map replies [0..<n + 1]))"
      using a by simp
    show "fst (post_event_loop max_retries replies ev 0 backoff) = False"
      unfolding l by simp
    show "logs_of (snd (post_event_loop max_retries replies ev 0 backoff))
              = concat (map raised_line (map replies [0..<n + 1]))"
      unfolding l by (simp only: snd_conv logs_of_failed_attempts)
  }
qed

theorem post_event_log_lines_witness:
  "retried (scripted [Response 429 ''busy''] (Response 202 ''ok'') 0)
   \<and> scripted [Response 429 ''busy''] (Response 202 ''ok'') 1 = Response 202 ''ok''
   \<and> logs_of (snd (post_event_loop 1 (scripted [Response 429 ''busy''] (Response 202 ''ok'')) sample_event 0 (1 / 10)))
       = [(INFO, ''Event ingested successfully: evt-0001'')]
   \<and> retried (scripted [Raised ''timed out''] (Response 400 ''bad'') 0)
   \<and> scripted [Raised ''timed out''] (Response 400 ''bad'') 1 = Response 400 ''bad''
   \<and> logs_of (snd (post_event_loop 1 (scripted [Raised ''timed out''] (Response 400 ''bad'')) sample_event 0 (1 / 10)))
       = [(ERROR, ''Failed to post event: timed out''), (ERROR, ''Unexpected status code: 400 - bad'')]
   \<and> retried (always_reply (Response 500 ''oops'') 0)
   \<and> retried (always_reply (Response 500 ''oops'') 1)
   \<and> fst (post_event_loop 1 (always_reply (Response 500 ''oops'')) sample_event 0 (1 / 10)) = False
   \<and> logs_of (snd (post_event_loop 1 (always_reply (Response 500 ''oops'')) sample_event 0 (1 / 10))) = []"
proof -
  have le: "(1::nat) \<le> 1" by simp
  have a: "\<forall>k<1. retried (scripted [Response 429 ''busy''] (Response 202 ''ok'') k)"
    and b: "\<forall>k<1. retried (scripted [Raised ''timed out''] (Response 400 ''bad'') k)"
    and c: "\<forall>k<1. retried (always_reply (Response 500 ''oops'') k)"
    by (simp_all add: scripted_def always_reply_def)
  have s: "str_int 400 = ''400''"
    by (simp add: str_int_def str_nat.simps digit_char_def)
  have i: "event_id sample_event = ''evt-0001''"
    by (simp add: sample_event_def generate_event_def)
  have v: "scripted [Response 429 ''busy''] (Response 202 ''ok'') 0 = Response 429 ''busy''"
    "scripted [Response 429 ''busy''] (Response 202 ''ok'') 1 = Response 202 ''ok''"
    "scripted [Raised ''timed out''] (Response 400 ''bad'') 0 = Raised ''timed out''"
    "scripted [Raised ''timed out''] (Response 400 ''bad'') 1 = Response 400 ''bad''"
    "always_reply (Response 500 ''oops'') 0 = Response 500 ''oops''"
    "always_reply (Response 500 ''oops'') 1 = Response 500 ''oops''"
    by (simp_all add: scripted_def always_reply_def)
  have w: "scripted [Raised ''timed out''] (Response 400 ''bad'') (Suc 0) = Response 400 ''bad''"
    "always_reply (Response 500 ''oops'') (Suc 0) = Response 500 ''oops''"
    by (simp_all add: scripted_def always_reply_def)
  have u: "[0..<(1::nat)] = [0]" "[0..<(1::nat) + 1] = [0, 1]"
    by (simp_all add: upt_rec)
  note t1 = post_event_log_lines
        [where replies = "scripted [Response 429 ''busy''] (Response 202 ''ok'')"
           and ev = sample_event and backoff = "1 / 10" and body = "''ok''", OF le a,
         THEN conjunct1, rule_format, OF v(2)]
  note t2 = post_event_log_lines
        [where replies = "scripted [Raised ''timed out''] (Response 400 ''bad'')"
           and ev = sample_event and backoff = "1 / 10" and code = 400 and body = "''bad''",
         OF le b, THEN conjunct2, THEN conjunct1, rule_format]
  note t3 = post_event_log_lines
        [where replies = "always_reply (Response 500 ''oops'')"
           and ev = sample_event and backoff = "1 / 10", OF le c,
         THEN conjunct2, THEN conjunct2, rule_format]
  have l1: "logs_of (snd (post_event_loop 1 (scripted [Response 429 ''busy''] (Response 202 ''ok'')) sample_event 0 (1 / 10)))
       = [(INFO, ''Event ingested successfully: evt-0001'')]"
    using t1 unfolding u by (simp add: v i)
  have l2: "logs_of (snd (post_event_loop 1 (scripted [Raised ''timed out''] (Response 400 ''bad'')) sample_event 0 (1 / 10)))
       = [(ERROR, ''Failed to post event: timed out''), (ERROR, ''Unexpected status code: 400 - bad'')]"
    using t2 unfolding u by (simp add: v w s)
  have l3: "fst (post_event_loop 1 (always_reply (Response 500 ''oops'')) sample_event 0 (1 / 10)) = False
     \<and> logs_of (snd (post_event_loop 1 (always_reply (Response 500 ''oops'')) sample_event 0 (1 / 10))) = []"
    using t3 unfolding u by (simp add: v w)
  show ?thesis
    unfolding v using l1 l2 l3 by simp
qed

text \<open>
  Claim C3 as stated fails. With the constants of the module and an endpoint that always
  answers 500, the call gives up after two requests and logs nothing at all. On status
  400 the one line logged is made of the status and the response text; the identifier
  of the event does not occur in it. With a request that always raises, the one failed
  call logs two lines, neither with the identifier.
\<close>

theorem post_event_log_counterexample:
  "post_event (always_reply (Response 500 ''oops'')) sample_event
     = (False, [HttpPost sample_event, Sleep (1 / 10), HttpPost sample_event, Sleep (1 / 5)])
   \<and> logs_of (snd (post_event (always_reply (Response 500 ''oops'')) sample_event)) = []
   \<and> logs_of (snd (post_event (always_reply (Response 400 ''Bad Request'')) sample_event))
       = [(ERROR, ''Unexpected status code: 400 - Bad Request'')]
   \<and> event_id sample_event = ''evt-0001''
   \<and> \<not> sublist (event_id sample_event) ''Unexpected status code: 400 - Bad Request''
   \<and> logs_of (snd (post_event (always_reply (Raised ''timed out'')) sample_event))
       = [(ERROR, ''Failed to post event: timed out''), (ERROR, ''Failed to post event: timed out'')]"
  by (simp add: post_event_def MAX_RETRIES_def INITIAL_BACKOFF_def post_event_loop.simps
      always_reply_def str_int_def str_nat.simps digit_char_def sample_event_def
      generate_event_def sublist_code(3))

section \<open>Properties of the scheduler\<close>

lemma py_range_up:
  "0 < s \<Longrightarrow> py_range a b s = map (\<lambda>k. a + int k * s) [0..<nat (- ((a - b) div s))]"
proof (induction a b s rule: py_range.induct)
  case (1 start stop step)
  show ?case
  proof (cases "start < stop")
    case True
    have neg: "(start - stop) div step < 0"
      using True 1(2) by (simp add: div_neg_pos_less0)
    have shift: "(start + step - stop) div step = (start - stop) div step + 1"
      using 1(2) by (metis add.commute add_diff_eq div_add_self1 less_irrefl)
    have cnt: "nat (- ((start - stop) div step)) = Suc (nat (- ((start + step - stop) div step)))"
      using neg shift by simp
    have ih: "py_range (start + step) stop step =
        map (\<lambda>k. start + step + int k * step) [0..<nat (- ((start + step - stop) div step))]"
      using 1 True by simp
    show ?thesis
      unfolding cnt
      by (subst py_range.simps) (simp add: True 1(2) ih map_upt_Suc algebra_simps del: upt_Suc)
  next
    case False
    then have "0 \<le> (start - stop) div step"
      using 1(2) by (simp add: pos_imp_zdiv_nonneg_iff)
    then show ?thesis
      using False 1(2) by (subst py_range.simps) simp
  qed
qed

lemma py_range_unit: "py_range a b 1 = [a..b - 1]"
proof (induction a b "1::int" rule: py_range.induct)
  case (1 start stop)
  show ?case
  proof (cases "start < stop")
    case True
    then show ?thesis
      using 1 by (subst py_range.simps) (simp add: upto_rec1 [of start])
  next
    case False
    then show ?thesis by (subst py_range.simps) simp
  qed
qed


lemma submitted_loop:
  "submitted (concat (map (\<lambda>i. [Submit (f i), SSleep d]) xs) @ rest) = map f xs @ submitted rest"
  by (induction xs) simp_all

lemma batches_closed_form:
  assumes "0 < B"
  shows "batches (seed_events_clickhouse uuid N B) =
         map (\<lambda>k. map (\<lambda>j. generate_event (uuid j) j) [int k * B..min (int k * B + B) N - 1])
           [0..<nat (- (- N div B))]"
proof -
  have "batches (seed_events_clickhouse uuid N B) =
        map (\<lambda>i. map (\<lambda>j. generate_event (uuid j) j) (py_range i (min (i + B) N) 1))
          (py_range 0 N B)"
    using assms by (simp add: batches_def seed_events_clickhouse_def submitted_loop)
  also have "\<dots> = map (\<lambda>k. map (\<lambda>j. generate_event (uuid j) j) [int k * B..min (int k * B + B) N - 1])
           [0..<nat (- (- N div B))]"
    by (simp add: py_range_up [OF assms] py_range_unit comp_def)
  finally show ?thesis .
qed

lemma ceil_facts:
  fixes N B :: int
  assumes "0 < N" and "0 < B"
  shows "0 < - (- N div B)"
    and "N \<le> - (- N div B) * B"
    and "(- (- N div B) - 1) * B < N"
    and "B dvd N \<Longrightarrow> (- (- N div B) - 1) * B = N - B"
    and "\<not> B dvd N \<Longrightarrow> N - (- (- N div B) - 1) * B = N mod B"
proof -
  define r where "r = (- N) mod B"
  have r: "0 \<le> r" "r < B" using assms(2) by (simp_all add: r_def)
  have "- N = B * (- N div B) + r" by (simp add: r_def)
  then have e: "- (- N div B) * B = N + r" by (simp add: algebra_simps)
  show "N \<le> - (- N div B) * B" using e r by simp
  have e': "(- (- N div B) - 1) * B = N + r - B"
    using e by (simp add: algebra_simps)
  show "(- (- N div B) - 1) * B < N" using e' r by simp
  show "0 < - (- N div B)"
  proof (rule ccontr)
    assume "\<not> 0 < - (- N div B)"
    then have "- (- N div B) * B \<le> 0" using assms(2) by (simp add: mult_le_0_iff)
    with e r assms(1) show False by simp
  qed
  show "(- (- N div B) - 1) * B = N - B" if "B dvd N"
  proof -
    have "r = 0" using that by (simp add: r_def dvd_eq_mod_eq_0[symmetric])
    with e' show ?thesis by simp
  qed
  show "N - (- (- N div B) - 1) * B = N mod B" if "\<not> B dvd N"
  proof -
    have "N mod B \<noteq> 0" using that by (simp add: dvd_eq_mod_eq_0)
    then have "r = B - N mod B" by (simp add: r_def zmod_zminus1_eq_if)
    with e' show ?thesis by simp
  qed
qed

lemma concat_consecutive:
  fixes N B :: int
  assumes "0 < B" and "0 \<le> N"
  shows "concat (map (\<lambda>k. [int k * B..min (int k * B + B) N - 1]) [0..<m]) = [0..min (int m * B) N - 1]"
proof (induction m)
  case 0
  then show ?case by simp
next
  case (Suc m)
  have mB: "0 \<le> int m * B" using assms(1) by simp
  show ?case
  proof (cases "int m * B < N")
    case True
    have a: "min (int m * B) N = int m * B" using True by simp
    have b: "int m * B + B = int (Suc m) * B" by (simp add: algebra_simps)
    have le: "int m * B \<le> min (int m * B + B) N - 1" using True assms(1) by simp
    have "[0..min (int m * B + B) N - 1] = [0..int m * B - 1] @ [int m * B..min (int m * B + B) N - 1]"
      using mB le by (rule upto_split1)
    then show ?thesis using Suc a b by simp
  next
    case False
    then have a: "min (int m * B) N = N" "min (int m * B + B) N = N" "min (int (Suc m) * B) N = N"
      using assms(1) by (simp_all add: algebra_simps min_def)
    have "[int m * B..N - 1] = []" using False by simp
    then show ?thesis using Suc a by simp
  qed
qed


text \<open>
  Claim C4. For positive \<open>N\<close> and \<open>B\<close> the scheduler raises nothing and hands exactly
  \<open>\<lceil>N / B\<rceil>\<close> batches to the executor. Batch \<open>k\<close> holds the events of the consecutive
  indices from \<open>k * B\<close> up to, but not including, \<open>min (k * B + B) N\<close>; together, in order,
  the batches hold the events of the indices \<open>0, \<dots>, N - 1\<close>, each once. No batch has more
  than \<open>B\<close> events, the sizes add up to \<open>N\<close>, every batch but the last has exactly \<open>B\<close>,
  and the last has \<open>N mod B\<close> when \<open>B\<close> does not divide \<open>N\<close> (and \<open>B\<close> when it does).
\<close>

theorem scheduler_batches:
  assumes "0 < N" and "0 < B"
  shows "\<not> isl (seed_events_clickhouse uuid N B)
     \<and> int (length (batches (seed_events_clickhouse uuid N B))) = \<lceil>real_of_int N / real_of_int B\<rceil>
     \<and> concat (batches (seed_events_clickhouse uuid N B))
         = map (\<lambda>j. generate_event (uuid j) j) [0..N - 1]
     \<and> (\<forall>k<length (batches (seed_events_clickhouse uuid N B)).
           batches (seed_events_clickhouse uuid N B) ! k
             = map (\<lambda>j. generate_event (uuid j) j) [int k * B..min (int k * B + B) N - 1])
     \<and> (\<forall>b\<in>set (batches (seed_events_clickhouse uuid N B)). int (length b) \<le> B)
     \<and> sum_list (map length (batches (seed_events_clickhouse uuid N B))) = nat N
     \<and> (\<forall>k. Suc k < length (batches (seed_events_clickhouse uuid N B)) \<longrightarrow>
           int (length (batches (seed_events_clickhouse uuid N B) ! k)) = B)
     \<and> (\<not> B dvd N \<longrightarrow> int (length (last (batches (seed_events_clickhouse uuid N B)))) = N mod B)
     \<and> (B dvd N \<longrightarrow> int (length (last (batches (seed_events_clickhouse uuid N B)))) = B)"
proof -
  define g where "g = (\<lambda>j. generate_event (uuid j) j)"
  define c where "c = - (- N div B)"
  define n where "n = nat c"
  define bs where "bs = batches (seed_events_clickhouse uuid N B)"
  note cf = ceil_facts [OF assms, folded c_def]
  have c: "int n = c" and n0: "0 < n" using cf(1) by (simp_all add: n_def)
  have bs: "bs = map (\<lambda>k. map g [int k * B..min (int k * B + B) N - 1]) [0..<n]"
    unfolding bs_def g_def n_def c_def by (rule batches_closed_form [OF assms(2)])
  have len: "length bs = n" by (simp add: bs)
  have nth: "bs ! k = map g [int k * B..min (int k * B + B) N - 1]" if "k < n" for k
    using that by (simp add: bs)
  have below: "int k * B < N" if "k < n" for k
  proof -
    have "int k \<le> c - 1" using that c by simp
    then have "int k * B \<le> (c - 1) * B" using assms(2) by (simp add: mult_right_mono)
    with cf(3) show ?thesis by simp
  qed
  have size: "int (length (bs ! k)) = min B (N - int k * B)" if "k < n" for k
    using below [OF that] assms(2) by (simp add: nth [OF that] min_def)
  have full: "int (length (bs ! k)) = B" if "Suc k < n" for k
  proof -
    have "int (Suc k) * B < N" using that by (rule below)
    then have "B \<le> N - int k * B" by (simp add: algebra_simps)
    moreover have "k < n" using that by simp
    ultimately show ?thesis by (simp add: size)
  qed
  have lastk: "last bs = bs ! (n - 1)"
    using n0 len by (metis last_conv_nth length_0_conv less_numeral_extra(3))
  have n1: "int (n - 1) = c - 1" using n0 c by simp
  have lastsize: "int (length (last bs)) = min B (N - (c - 1) * B)"
    using n0 by (simp add: lastk size n1 c)
  have p1: "\<not> isl (seed_events_clickhouse uuid N B)"
    using assms(2) by (simp add: seed_events_clickhouse_def)
  have p2: "int (length bs) = \<lceil>real_of_int N / real_of_int B\<rceil>"
    by (simp add: len c c_def ceiling_divide_eq_div)
  have "concat bs = map g (concat (map (\<lambda>k. [int k * B..min (int k * B + B) N - 1]) [0..<n]))"
    by (simp add: bs map_concat comp_def)
  also have "\<dots> = map g [0..min (int n * B) N - 1]"
    using assms by (simp add: concat_consecutive)
  also have "min (int n * B) N = N" using cf(2) c by simp
  finally have p3: "concat bs = map g [0..N - 1]" .
  have p4: "\<forall>k<length bs. bs ! k = map g [int k * B..min (int k * B + B) N - 1]"
    using nth len by simp
  have p5: "\<forall>b\<in>set bs. int (length b) \<le> B"
  proof
    fix b assume "b \<in> set bs"
    then obtain k where "k < n" "b = bs ! k" using len by (metis in_set_conv_nth)
    then show "int (length b) \<le> B" using size by simp
  qed
  have "sum_list (map length bs) = length (concat bs)" by (simp add: length_concat)
  also have "\<dots> = nat N" using assms(1) by (simp add: p3)
  finally have p6: "sum_list (map length bs) = nat N" .
  have p7: "\<forall>k. Suc k < length bs \<longrightarrow> int (length (bs ! k)) = B"
    using full len by simp
  have p8: "\<not> B dvd N \<longrightarrow> int (length (last bs)) = N mod B"
  proof
    assume "\<not> B dvd N"
    then have "N - (c - 1) * B = N mod B" by (rule cf(5))
    moreover have "N mod B < B" using assms(2) by simp
    ultimately show "int (length (last bs)) = N mod B" by (simp add: lastsize)
  qed
  have p9: "B dvd N \<longrightarrow> int (length (last bs)) = B"
  proof
    assume "B dvd N"
    then have "(c - 1) * B = N - B" by (rule cf(4))
    then show "int (length (last bs)) = B" by (simp add: lastsize)
  qed
  show ?thesis
    using p1 p2 p3 p4 p5 p6 p7 p8 p9 unfolding bs_def g_def by blast
qed


theorem scheduler_batches_witness:
  "(0::int) < 7 \<and> (0::int) < 3
   \<and> map (map event_id) (batches (seed_events_clickhouse fixed_uuid 7 3))
       = [[''id-0'', ''id-1'', ''id-2''], [''id-3'', ''id-4'', ''id-5''], [''id-6'']]
   \<and> int (length (batches (seed_events_clickhouse fixed_uuid 7 3))) = \<lceil>real_of_int 7 / real_of_int 3\<rceil>
   \<and> sum_list (map length (batches (seed_events_clickhouse fixed_uuid 7 3))) = 7
   \<and> \<not> (3::int) dvd 7
   \<and> int (length (last (batches (seed_events_clickhouse fixed_uuid 7 3)))) = 7 mod 3
   \<and> length (batches (seed_events_clickhouse fixed_uuid 300 150)) = 2
   \<and> (150::int) dvd 300
   \<and> int (length (last (batches (seed_events_clickhouse fixed_uuid 300 150)))) = 150
   \<and> length (batches (seed_events_clickhouse fixed_uuid NUM_EVENTS BATCH_SIZE)) = 6667
   \<and> int (length (last (batches (seed_events_clickhouse fixed_uuid NUM_EVENTS BATCH_SIZE)))) = 100"
proof -
  have a: "(0::int) < 7" and b: "(0::int) < 3" and c: "(0::int) < 300" and d: "(0::int) < 150"
    by simp_all
  have ids: "map (map event_id) (batches (seed_events_clickhouse fixed_uuid 7 3))
       = [[''id-0'', ''id-1'', ''id-2''], [''id-3'', ''id-4'', ''id-5''], [''id-6'']]"
    by (simp add: batches_def seed_events_clickhouse_def py_range.simps generate_event_def
        fixed_uuid_def str_int_def str_nat.simps digit_char_def)
  have "int (length (batches (seed_events_clickhouse fixed_uuid 300 150))) = 2"
    using scheduler_batches [OF c d, of fixed_uuid] by simp
  then have two: "length (batches (seed_events_clickhouse fixed_uuid 300 150)) = 2"
    by simp
  have e: "0 < NUM_EVENTS" and f: "0 < BATCH_SIZE"
    by (simp_all add: NUM_EVENTS_def BATCH_SIZE_def)
  have ceil: "\<lceil>real_of_int NUM_EVENTS / real_of_int BATCH_SIZE\<rceil> = 6667"
    unfolding ceiling_divide_eq_div by (simp add: NUM_EVENTS_def BATCH_SIZE_def)
  have rest: "\<not> BATCH_SIZE dvd NUM_EVENTS" "NUM_EVENTS mod BATCH_SIZE = 100"
    by (simp_all add: NUM_EVENTS_def BATCH_SIZE_def)
  have "int (length (batches (seed_events_clickhouse fixed_uuid NUM_EVENTS BATCH_SIZE))) = 6667"
    using scheduler_batches [OF e f, of fixed_uuid] ceil by simp
  then have all: "length (batches (seed_events_clickhouse fixed_uuid NUM_EVENTS BATCH_SIZE)) = 6667"
    by simp
  have lastb: "int (length (last (batches (seed_events_clickhouse fixed_uuid NUM_EVENTS BATCH_SIZE)))) = 100"
    using scheduler_batches [OF e f, of fixed_uuid] rest by simp
  show ?thesis
    using scheduler_batches [OF a b, of fixed_uuid] scheduler_batches [OF c d, of fixed_uuid] ids two
      all lastb
    by simp
qed


subsection \<open>Where the scheduler waits\<close>

lemma effects_of_seed:
  assumes "B \<noteq> 0"
  shows "effects_of (seed_events_clickhouse uuid N B) =
         SLog INFO ''Starting event ingestion...''
         # concat (map (\<lambda>b. [Submit b, SSleep 1]) (batches (seed_events_clickhouse uuid N B)))
         @ [Shutdown, SLog INFO ''Event ingestion completed'']"
  using assms
  by (simp add: effects_of_def batches_def seed_events_clickhouse_def submitted_loop comp_def)

lemma after_submit_skip:
  "\<forall>b. x \<noteq> Submit b \<Longrightarrow> after_submit (x # ys) = after_submit ys"
  by (cases x; cases ys) simp_all

lemma after_submit_loop:
  "after_submit (concat (map (\<lambda>b. [Submit b, SSleep d]) bs) @ [Shutdown, SLog l m])
   = replicate (length bs) (SSleep d)"
proof (induction bs)
  case Nil
  show ?case by simp
next
  case (Cons b bs)
  have "after_submit (SSleep d # concat (map (\<lambda>b. [Submit b, SSleep d]) bs) @ [Shutdown, SLog l m])
      = after_submit (concat (map (\<lambda>b. [Submit b, SSleep d]) bs) @ [Shutdown, SLog l m])"
    by (rule after_submit_skip) simp
  with Cons show ?case by simp
qed

lemma joins_of_loop:
  "filter is_join (concat (map (\<lambda>b. [Submit b, SSleep d]) bs)) = []"
  by (induction bs) simp_all

lemma steps_of_loop:
  "map step_of (concat (map (\<lambda>b. [Submit b, SSleep d]) bs))
   = concat (map (\<lambda>n. [SubmitStep n, SleepStep]) (map length bs))"
  by (induction bs) simp_all

lemma batch_sizes:
  assumes "0 < B"
  shows "map length (batches (seed_events_clickhouse uuid N B)) =
         map (\<lambda>k. nat (min (int k * B + B) N - int k * B)) [0..<nat (- (- N div B))]"
  by (simp add: batches_closed_form [OF assms] comp_def)

text \<open>
  Claim C2, as the code has it. For positive \<open>N\<close> and \<open>B\<close> the scheduler logs the start,
  then for each of the \<open>\<lceil>N / B\<rceil>\<close> batches hands the batch to the pool and sleeps the
  pacing interval at once, then shuts the pool down, then logs the end. What follows each
  hand-over is the pacing sleep, not a wait; the run has exactly one wait, the shutdown
  after the last batch and its sleep.
\<close>

theorem scheduler_waits_once_at_end:
  assumes "0 < N" and "0 < B"
  shows "effects_of (seed_events_clickhouse uuid N B) =
           SLog INFO ''Starting event ingestion...''
           # concat (map (\<lambda>b. [Submit b, SSleep 1]) (batches (seed_events_clickhouse uuid N B)))
           @ [Shutdown, SLog INFO ''Event ingestion completed'']
     \<and> int (length (batches (seed_events_clickhouse uuid N B))) = \<lceil>real_of_int N / real_of_int B\<rceil>
     \<and> after_submit (effects_of (seed_events_clickhouse uuid N B))
         = replicate (length (batches (seed_events_clickhouse uuid N B))) (SSleep 1)
     \<and> filter is_join (effects_of (seed_events_clickhouse uuid N B)) = [Shutdown]
     \<and> \<not> settles_each_batch (effects_of (seed_events_clickhouse uuid N B))"
proof -
  define bs where "bs = batches (seed_events_clickhouse uuid N B)"
  have e: "effects_of (seed_events_clickhouse uuid N B) =
           SLog INFO ''Starting event ingestion...''
           # concat (map (\<lambda>b. [Submit b, SSleep 1]) bs)
           @ [Shutdown, SLog INFO ''Event ingestion completed'']"
    unfolding bs_def using assms(2) by (intro effects_of_seed) simp
  have len: "int (length bs) = - (- N div B)"
    using ceil_facts(1) [OF assms] by (simp add: bs_def batches_closed_form [OF assms(2)])
  have "0 < int (length bs)" using len ceil_facts(1) [OF assms] by simp
  then have pos: "0 < length bs" by simp
  have c2: "int (length bs) = \<lceil>real_of_int N / real_of_int B\<rceil>"
    by (simp add: len ceiling_divide_eq_div)
  have skip: "after_submit (SLog INFO ''Starting event ingestion...'' # ys) = after_submit ys" for ys
    by (rule after_submit_skip) simp
  have c3: "after_submit (effects_of (seed_events_clickhouse uuid N B)) = replicate (length bs) (SSleep 1)"
    unfolding e by (simp only: skip after_submit_loop)
  have c4: "filter is_join (effects_of (seed_events_clickhouse uuid N B)) = [Shutdown]"
    unfolding e by (simp add: joins_of_loop)
  have "after_submit (effects_of (seed_events_clickhouse uuid N B)) = SSleep 1 # replicate (length bs - 1) (SSleep 1)"
    using pos c3 by (cases "length bs") simp_all
  then have c5: "\<not> settles_each_batch (effects_of (seed_events_clickhouse uuid N B))"
    by (simp add: settles_each_batch_def)
  show ?thesis
    using e c2 c3 c4 c5 unfolding bs_def by blast
qed

theorem scheduler_waits_once_at_end_witness:
  "(0::int) < 4 \<and> (0::int) < 2
   \<and> map step_of (effects_of (seed_events_clickhouse fixed_uuid 4 2))
       = [LogStep, SubmitStep 2, SleepStep, SubmitStep 2, SleepStep, JoinStep, LogStep]
   \<and> length (batches (seed_events_clickhouse fixed_uuid 4 2)) = 2
   \<and> after_submit (effects_of (seed_events_clickhouse fixed_uuid 4 2)) = [SSleep 1, SSleep 1]
   \<and> filter is_join (effects_of (seed_events_clickhouse fixed_uuid 4 2)) = [Shutdown]
   \<and> \<not> settles_each_batch (effects_of (seed_events_clickhouse fixed_uuid 4 2))"
proof -
  have a: "(0::int) < 4" and b: "(0::int) < 2" by simp_all
  note w = scheduler_waits_once_at_end [OF a b, of fixed_uuid]
  note w1 = w [THEN conjunct1]
  note w2 = w [THEN conjunct2, THEN conjunct1]
  note w3 = w [THEN conjunct2, THEN conjunct2, THEN conjunct1]
  note w4 = w [THEN conjunct2, THEN conjunct2, THEN conjunct2, THEN conjunct1]
  note w5 = w [THEN conjunct2, THEN conjunct2, THEN conjunct2, THEN conjunct2]
  have "int (length (batches (seed_events_clickhouse fixed_uuid 4 2))) = 2"
    using w2 by simp
  then have two: "length (batches (seed_events_clickhouse fixed_uuid 4 2)) = 2" by simp
  have u: "[0..<2::nat] = [0, 1]" by code_simp
  have sizes: "map length (batches (seed_events_clickhouse fixed_uuid 4 2)) = [2, 2]"
    by (simp add: batch_sizes [OF b] u)
  have steps: "map step_of (effects_of (seed_events_clickhouse fixed_uuid 4 2))
       = [LogStep, SubmitStep 2, SleepStep, SubmitStep 2, SleepStep, JoinStep, LogStep]"
    unfolding w1 by (simp add: steps_of_loop sizes)
  have r: "replicate 2 (SSleep 1) = [SSleep 1, SSleep 1]" by (simp add: numeral_2_eq_2)
  have after: "after_submit (effects_of (seed_events_clickhouse fixed_uuid 4 2)) = [SSleep 1, SSleep 1]"
    using w3 unfolding two r .
  show ?thesis
    using a b steps two after w4 w5 by blast
qed

text \<open>
  Claim C2 as stated fails. With 300 events in batches of 150 the run is: log, hand over
  150, sleep, hand over 150, sleep, wait, log. Each hand-over is followed by the pacing
  sleep; the only wait comes after both batches, at the end of the run.
\<close>

theorem scheduler_settle_counterexample:
  "map step_of (effects_of (seed_events_clickhouse fixed_uuid 300 150))
     = [LogStep, SubmitStep 150, SleepStep, SubmitStep 150, SleepStep, JoinStep, LogStep]
   \<and> map step_of (after_submit (effects_of (seed_events_clickhouse fixed_uuid 300 150)))
     = [SleepStep, SleepStep]
   \<and> \<not> settles_each_batch (effects_of (seed_events_clickhouse fixed_uuid 300 150))"
proof -
  have b: "(0::int) < 150" and nz: "(150::int) \<noteq> 0" by simp_all
  have u: "[0..<2::nat] = [0, 1]" by code_simp
  have sizes: "map length (batches (seed_events_clickhouse fixed_uuid 300 150)) = [150, 150]"
    by (simp add: batch_sizes [OF b] u)
  then have two: "length (batches (seed_events_clickhouse fixed_uuid 300 150)) = 2"
    by (metis length_map list.size(3,4) One_nat_def Suc_1 add.commute plus_1_eq_Suc)
  note e = effects_of_seed [OF nz, of fixed_uuid 300]
  have steps: "map step_of (effects_of (seed_events_clickhouse fixed_uuid 300 150))
     = [LogStep, SubmitStep 150, SleepStep, SubmitStep 150, SleepStep, JoinStep, LogStep]"
    unfolding e by (simp add: steps_of_loop sizes)
  have skip: "after_submit (SLog INFO ''Starting event ingestion...'' # ys) = after_submit ys" for ys
    by (rule after_submit_skip) simp
  have after: "after_submit (effects_of (seed_events_clickhouse fixed_uuid 300 150))
     = [SSleep 1, SSleep 1]"
    unfolding e by (simp only: skip after_submit_loop two) (simp add: numeral_2_eq_2)
  show ?thesis
    using steps after by (simp add: settles_each_batch_def)
qed

section \<open>Properties of the monitor\<close>

lemma queries_of_append: "queries_of (xs @ ys) = queries_of xs @ queries_of ys"
  by (induction xs rule: queries_of.induct) simp_all

lemma mon_logs_of_append: "mon_logs_of (xs @ ys) = mon_logs_of xs @ mon_logs_of ys"
  by (induction xs rule: mon_logs_of.induct) simp_all

lemma mon_sleeps_of_append: "mon_sleeps_of (xs @ ys) = mon_sleeps_of xs @ mon_sleeps_of ys"
  by (induction xs rule: mon_sleeps_of.induct) simp_all

lemma storage_step_cases:
  "storage_step d =
     (case raises StorageQuery (d StorageQuery) of
        Some e \<Rightarrow> ([Query StorageQuery], Some e)
      | None \<Rightarrow> ([Query StorageQuery,
                   MonLog INFO ''Storage Query Result: '' (Value (hd (hd (case d StorageQuery of Rows rs \<Rightarrow> rs))))],
                  None))"
  by (auto simp: storage_step_def split: reply.splits list.splits)

lemma run_query_cases:
  "q \<noteq> StorageQuery \<Longrightarrow> run_query d q label =
     (case raises q (d q) of
        Some e \<Rightarrow> ([Query q], Some e)
      | None \<Rightarrow> ([Query q, MonLog INFO label (ResultRows (case d q of Rows rs \<Rightarrow> rs))], None))"
  by (cases q; cases "d q") (simp_all add: run_query_def)

lemma monitor_steps:
  "(monitor_step db ^^ n) (k, tr) = (k + n, tr @ concat (map (\<lambda>i. poll_cycle (db i)) [k..<k + n]))"
proof (induction n arbitrary: k tr)
  case 0
  show ?case by simp
next
  case (Suc n)
  have "(monitor_step db ^^ Suc n) (k, tr) = (monitor_step db ^^ n) (monitor_step db (k, tr))"
    by (simp add: funpow_swap1)
  also have "monitor_step db (k, tr) = (Suc k, tr @ poll_cycle (db k))"
    by (simp add: monitor_step_def)
  also have "(monitor_step db ^^ n) (Suc k, tr @ poll_cycle (db k))
      = (Suc k + n, (tr @ poll_cycle (db k)) @ concat (map (\<lambda>i. poll_cycle (db i)) [Suc k..<Suc k + n]))"
    by (rule Suc.IH)
  also have "[k..<k + Suc n] = k # [Suc k..<Suc k + n]"
    by (simp add: upt_rec)
  then have "(tr @ poll_cycle (db k)) @ concat (map (\<lambda>i. poll_cycle (db i)) [Suc k..<Suc k + n])
      = tr @ concat (map (\<lambda>i. poll_cycle (db i)) [k..<k + Suc n])"
    by simp
  finally show ?case by simp
qed

lemma monitor_loop_funpow: "monitor_loop fuel db s = (monitor_step db ^^ fuel) s"
  by (induction fuel arbitrary: s) (simp_all add: funpow_swap1)

lemma monitor_loop_cycles:
  "monitor_loop n db (k, tr) = (k + n, tr @ concat (map (\<lambda>i. poll_cycle (db i)) [k..<k + n]))"
  by (simp only: monitor_loop_funpow monitor_steps)

lemma poll_cycle_sleep:
  "mon_sleeps_of (poll_cycle d) = [QUERY_INTERVAL] \<and> last (poll_cycle d) = MonSleep QUERY_INTERVAL"
  by (simp add: poll_cycle_def try_body_def and_then_def storage_step_cases run_query_cases
      mon_sleeps_of_append split: option.splits prod.splits)


lemma poll_cycle_unfold:
  "poll_cycle d =
     (case raises StorageQuery (d StorageQuery) of
        Some e \<Rightarrow> [Query StorageQuery,
                   MonLog ERROR ''Failed to execute queries: '' (Detail e), MonSleep QUERY_INTERVAL]
      | None \<Rightarrow>
          [Query StorageQuery,
           MonLog INFO ''Storage Query Result: '' (Value (hd (hd (case d StorageQuery of Rows rs \<Rightarrow> rs))))]
          @ (case raises IngestionLagQuery (d IngestionLagQuery) of
        Some e \<Rightarrow> [Query IngestionLagQuery,
                   MonLog ERROR ''Failed to execute queries: '' (Detail e), MonSleep QUERY_INTERVAL]
      | None \<Rightarrow>
          [Query IngestionLagQuery,
           MonLog INFO ''Ingestion Lag Query Result: '' (ResultRows (case d IngestionLagQuery of Rows rs \<Rightarrow> rs))]
          @ (case raises SummariseQuery (d SummariseQuery) of
        Some e \<Rightarrow> [Query SummariseQuery,
                   MonLog ERROR ''Failed to execute queries: '' (Detail e), MonSleep QUERY_INTERVAL]
      | None \<Rightarrow>
          [Query SummariseQuery,
           MonLog INFO ''Other Query Result: '' (ResultRows (case d SummariseQuery of Rows rs \<Rightarrow> rs))]
          @ (case raises EventCountQuery (d EventCountQuery) of
        Some e \<Rightarrow> [Query EventCountQuery,
                   MonLog ERROR ''Failed to execute queries: '' (Detail e), MonSleep QUERY_INTERVAL]
      | None \<Rightarrow>
          [Query EventCountQuery,
           MonLog INFO ''Other Query Result: '' (ResultRows (case d EventCountQuery of Rows rs \<Rightarrow> rs))]
          @ (case raises DurationQuery (d DurationQuery) of
        Some e \<Rightarrow> [Query DurationQuery,
                   MonLog ERROR ''Failed to execute queries: '' (Detail e), MonSleep QUERY_INTERVAL]
      | None \<Rightarrow>
          [Query DurationQuery,
           MonLog INFO ''Duration Query Result: '' (ResultRows (case d DurationQuery of Rows rs \<Rightarrow> rs)),
           MonSleep QUERY_INTERVAL])))))"
  by (simp add: poll_cycle_def try_body_def and_then_def storage_step_cases run_query_cases
      split: option.splits)

text \<open>
  Claim C9. Let the steps of the queries before position \<open>j\<close> of the fixed order raise
  nothing and the step of the query at position \<open>j\<close> raise \<open>e\<close>. Then the cycle sends
  exactly the queries up to and including position \<open>j\<close>, in the fixed order; it logs
  \<open>j\<close> results and then the error with \<open>e\<close>; and the replies the later queries would have
  given have no influence on what the cycle does. Any cycle starts with the first query
  (the next one too, whose effects the loop appends), and a cycle in which nothing raises
  sends all five in the fixed order.
\<close>

theorem poll_cycle_aborts_at_failure:
  assumes "j < length query_order"
    and "list_all (\<lambda>q. raises q (d q) = None) (take j query_order)"
    and "raises (query_order ! j) (d (query_order ! j)) = Some e"
  shows "queries_of (poll_cycle d) = take (Suc j) query_order
     \<and> map fst (mon_logs_of (poll_cycle d)) = replicate j INFO @ [ERROR]
     \<and> last (mon_logs_of (poll_cycle d)) = (ERROR, ''Failed to execute queries: '', Detail e)
     \<and> (list_all (\<lambda>q. d' q = d q) (take (Suc j) query_order) \<longrightarrow> poll_cycle d' = poll_cycle d)
     \<and> hd (queries_of (poll_cycle d'')) = StorageQuery
     \<and> (list_all (\<lambda>q. raises q (d'' q) = None) query_order \<longrightarrow>
           queries_of (poll_cycle d'') = query_order)
     \<and> monitor_step db (monitor_step db (k, tr)) = (k + 2, tr @ poll_cycle (db k) @ poll_cycle (db (Suc k)))"
proof -
  have j: "j = 0 \<or> j = 1 \<or> j = 2 \<or> j = 3 \<or> j = 4"
    using assms(1) by (auto simp: query_order_def)
  have c1: "queries_of (poll_cycle d) = take (Suc j) query_order"
    using j assms(2,3) by (auto simp: query_order_def poll_cycle_unfold [of d])
  have c2: "map fst (mon_logs_of (poll_cycle d)) = replicate j INFO @ [ERROR]"
    using j assms(2,3) by (auto simp: query_order_def poll_cycle_unfold [of d] numeral_eq_Suc)
  have c3: "last (mon_logs_of (poll_cycle d)) = (ERROR, ''Failed to execute queries: '', Detail e)"
    using j assms(2,3) by (auto simp: query_order_def poll_cycle_unfold [of d])
  have c4: "poll_cycle d' = poll_cycle d" if "list_all (\<lambda>q. d' q = d q) (take (Suc j) query_order)"
    using j assms(2,3) that by (auto simp: query_order_def poll_cycle_unfold [of d] poll_cycle_unfold [of d'])
  have c5: "hd (queries_of (poll_cycle d'')) = StorageQuery"
    by (simp add: poll_cycle_unfold [of d''] split: option.splits)
  have c6: "queries_of (poll_cycle d'') = query_order"
    if "list_all (\<lambda>q. raises q (d'' q) = None) query_order"
    using that by (simp add: query_order_def poll_cycle_unfold [of d''])
  have c7: "monitor_step db (monitor_step db (k, tr)) = (k + 2, tr @ poll_cycle (db k) @ poll_cycle (db (Suc k)))"
    by (simp add: monitor_step_def)
  show ?thesis using c1 c2 c3 c4 c5 c6 c7 by blast
qed


theorem poll_cycle_aborts_at_failure_witness:
  "(2::nat) < length query_order
   \<and> list_all (\<lambda>q. raises q (flaky 2 q) = None) (take 2 query_order)
   \<and> raises (query_order ! 2) (flaky 2 (query_order ! 2)) = Some ''connection reset''
   \<and> queries_of (poll_cycle (flaky 2)) = [StorageQuery, IngestionLagQuery, SummariseQuery]
   \<and> map fst (mon_logs_of (poll_cycle (flaky 2))) = [INFO, INFO, ERROR]
   \<and> last (mon_logs_of (poll_cycle (flaky 2))) = (ERROR, ''Failed to execute queries: '', Detail ''connection reset'')
   \<and> list_all (\<lambda>q. ((flaky 2) (DurationQuery := Fails ''down'')) q = flaky 2 q) (take (Suc 2) query_order)
   \<and> poll_cycle ((flaky 2) (DurationQuery := Fails ''down'')) = poll_cycle (flaky 2)
   \<and> list_all (\<lambda>q. raises q (flaky 3 q) = None) query_order
   \<and> queries_of (poll_cycle (flaky 3)) = query_order"
proof -
  have a: "(2::nat) < length query_order"
    and b: "list_all (\<lambda>q. raises q (flaky 2 q) = None) (take 2 query_order)"
    and c: "raises (query_order ! 2) (flaky 2 (query_order ! 2)) = Some ''connection reset''"
    and d: "list_all (\<lambda>q. ((flaky 2) (DurationQuery := Fails ''down'')) q = flaky 2 q) (take (Suc 2) query_order)"
    and e: "list_all (\<lambda>q. raises q (flaky 3 q) = None) query_order"
    by (simp_all add: query_order_def flaky_def)
  have t: "take (Suc 2) query_order = [StorageQuery, IngestionLagQuery, SummariseQuery]"
    "replicate 2 INFO @ [ERROR] = [INFO, INFO, ERROR]"
    by (simp_all add: query_order_def numeral_eq_Suc)
  note w = poll_cycle_aborts_at_failure [OF a b c,
        of "(flaky 2) (DurationQuery := Fails ''down'')" "flaky 3"]
  show ?thesis
    using w a b c d e unfolding t by blast
qed

lemma monitor_connect_failure_propagates:
  "monitor_queries fuel (Refused e) db = ConnectFailed e"
  by (simp add: monitor_queries_def)

text \<open>
  Claim C8. With fuel for \<open>n\<close> passes the connected monitor is still polling after \<open>n\<close>
  passes: it has run the cycles \<open>0, \<dots>, n - 1\<close>, whatever failed in them, and the effects
  of cycle \<open>k\<close> are those of \<open>poll_cycle\<close> on the replies of cycle \<open>k\<close> alone. Every
  cycle, failing or not, ends with one sleep of the fixed interval. A cycle in which a
  step raises \<open>e\<close> logs exactly one error line, carrying \<open>e\<close>, as its last line. A cycle
  in which nothing raises sends the five queries in order and logs, after each, the result
  it returned: the first value of the first row for the first query, the rows for the
  other four.
\<close>

theorem monitor_survives_failures:
  "monitor_queries n Connected db
     = StillPolling (n, monitor_start @ concat (map (\<lambda>k. poll_cycle (db k)) [0..<n]))
   \<and> monitor_queries (Suc n) Connected db
     = StillPolling (Suc n, snd (monitor_loop n db (0, monitor_start)) @ poll_cycle (db n))
   \<and> mon_sleeps_of (poll_cycle d) = [QUERY_INTERVAL]
   \<and> last (poll_cycle d) = MonSleep QUERY_INTERVAL
   \<and> (first_raise d query_order = Some e \<longrightarrow>
         error_lines (mon_logs_of (poll_cycle d)) = [(ERROR, ''Failed to execute queries: '', Detail e)]
       \<and> last (mon_logs_of (poll_cycle d)) = (ERROR, ''Failed to execute queries: '', Detail e))
   \<and> (first_raise d query_order = None \<longrightarrow>
         queries_of (poll_cycle d) = query_order
       \<and> map fst (mon_logs_of (poll_cycle d)) = replicate 5 INFO)
   \<and> (d StorageQuery = Rows ((v # vs) # rs0) \<and> d IngestionLagQuery = Rows rs1
        \<and> d SummariseQuery = Rows rs2 \<and> d EventCountQuery = Rows rs3
        \<and> d DurationQuery = Rows rs4 \<longrightarrow>
         poll_cycle d =
           [Query StorageQuery, MonLog INFO ''Storage Query Result: '' (Value v),
            Query IngestionLagQuery, MonLog INFO ''Ingestion Lag Query Result: '' (ResultRows rs1),
            Query SummariseQuery, MonLog INFO ''Other Query Result: '' (ResultRows rs2),
            Query EventCountQuery, MonLog INFO ''Other Query Result: '' (ResultRows rs3),
            Query DurationQuery, MonLog INFO ''Duration Query Result: '' (ResultRows rs4),
            MonSleep QUERY_INTERVAL])"
proof -
  have c1: "monitor_queries n Connected db
     = StillPolling (n, monitor_start @ concat (map (\<lambda>k. poll_cycle (db k)) [0..<n]))"
    using monitor_loop_cycles [where db = db and n = n and k = 0 and tr = monitor_start]
    by (simp add: monitor_queries_def)
  have c2: "monitor_queries (Suc n) Connected db
     = StillPolling (Suc n, snd (monitor_loop n db (0, monitor_start)) @ poll_cycle (db n))"
    using monitor_loop_cycles [where db = db and n = n and k = 0 and tr = monitor_start]
      monitor_loop_cycles [where db = db and n = "Suc n" and k = 0 and tr = monitor_start]
    by (simp add: monitor_queries_def)
  have c4: "error_lines (mon_logs_of (poll_cycle d)) = [(ERROR, ''Failed to execute queries: '', Detail e)]
       \<and> last (mon_logs_of (poll_cycle d)) = (ERROR, ''Failed to execute queries: '', Detail e)"
    if "first_raise d query_order = Some e"
    using that
    by (auto simp: query_order_def poll_cycle_unfold [of d] error_lines_def split: option.splits)
  have c5: "queries_of (poll_cycle d) = query_order
       \<and> map fst (mon_logs_of (poll_cycle d)) = replicate 5 INFO"
    if "first_raise d query_order = None"
    using that
    by (auto simp: query_order_def poll_cycle_unfold [of d] numeral_eq_Suc split: option.splits)
  have c6: "poll_cycle d =
           [Query StorageQuery, MonLog INFO ''Storage Query Result: '' (Value v),
            Query IngestionLagQuery, MonLog INFO ''Ingestion Lag Query Result: '' (ResultRows rs1),
            Query SummariseQuery, MonLog INFO ''Other Query Result: '' (ResultRows rs2),
            Query EventCountQuery, MonLog INFO ''Other Query Result: '' (ResultRows rs3),
            Query DurationQuery, MonLog INFO ''Duration Query Result: '' (ResultRows rs4),
            MonSleep QUERY_INTERVAL]"
    if "d StorageQuery = Rows ((v # vs) # rs0) \<and> d IngestionLagQuery = Rows rs1
        \<and> d SummariseQuery = Rows rs2 \<and> d EventCountQuery = Rows rs3
        \<and> d DurationQuery = Rows rs4"
    using that
    by (simp add: poll_cycle_def try_body_def and_then_def storage_step_def run_query_def)
  show ?thesis using c1 c2 poll_cycle_sleep [of d] c4 c5 c6 by blast
qed

theorem monitor_survives_failures_witness:
  "first_raise (flaky 2) query_order = Some ''connection reset''
   \<and> first_raise (flaky 0) query_order = None
   \<and> flaky 3 StorageQuery = Rows [[''42'', ''7'']]
   \<and> flaky 3 DurationQuery = Rows [[''42'', ''7'']]
   \<and> monitor_queries 10 Connected flaky
       = StillPolling (10, monitor_start @ poll_cycle (flaky 0) @ poll_cycle (flaky 1)
           @ poll_cycle (flaky 2) @ poll_cycle (flaky 3) @ poll_cycle (flaky 4)
           @ poll_cycle (flaky 5) @ poll_cycle (flaky 6) @ poll_cycle (flaky 7)
           @ poll_cycle (flaky 8) @ poll_cycle (flaky 9))
   \<and> poll_cycle (flaky 2) =
      [Query StorageQuery, MonLog INFO ''Storage Query Result: '' (Value ''42''),
       Query IngestionLagQuery, MonLog INFO ''Ingestion Lag Query Result: '' (ResultRows [[''42'', ''7'']]),
       Query SummariseQuery, MonLog ERROR ''Failed to execute queries: '' (Detail ''connection reset''),
       MonSleep QUERY_INTERVAL]
   \<and> poll_cycle (flaky 3) =
      [Query StorageQuery, MonLog INFO ''Storage Query Result: '' (Value ''42''),
       Query IngestionLagQuery, MonLog INFO ''Ingestion Lag Query Result: '' (ResultRows [[''42'', ''7'']]),
       Query SummariseQuery, MonLog INFO ''Other Query Result: '' (ResultRows [[''42'', ''7'']]),
       Query EventCountQuery, MonLog INFO ''Other Query Result: '' (ResultRows [[''42'', ''7'']]),
       Query DurationQuery, MonLog INFO ''Duration Query Result: '' (ResultRows [[''42'', ''7'']]),
       MonSleep QUERY_INTERVAL]
   \<and> error_lines (mon_logs_of (poll_cycle (flaky 2)))
       = [(ERROR, ''Failed to execute queries: '', Detail ''connection reset'')]
   \<and> queries_of (poll_cycle (flaky 0)) = query_order"
proof -
  have a: "first_raise (flaky 2) query_order = Some ''connection reset''"
    and b: "first_raise (flaky 0) query_order = None"
    by (simp_all add: query_order_def flaky_def)
  have r: "flaky 3 StorageQuery = Rows ([''42'', ''7''] # [])"
    "flaky 3 IngestionLagQuery = Rows [[''42'', ''7'']]"
    "flaky 3 SummariseQuery = Rows [[''42'', ''7'']]"
    "flaky 3 EventCountQuery = Rows [[''42'', ''7'']]"
    "flaky 3 DurationQuery = Rows [[''42'', ''7'']]"
    by (simp_all add: flaky_def)
  note w2 = monitor_survives_failures [where db = flaky and n = 10 and d = "flaky 2"
      and e = "''connection reset''"]
  note w0 = monitor_survives_failures [where db = flaky and n = 10 and d = "flaky 0"
      and e = "''connection reset''"]
  note w3 = monitor_survives_failures [where db = flaky and n = 10 and d = "flaky 3"
      and v = "''42''" and vs = "[''7'']" and ?rs0.0 = "[]" and ?rs1.0 = "[[''42'', ''7'']]"
      and ?rs2.0 = "[[''42'', ''7'']]" and ?rs3.0 = "[[''42'', ''7'']]"
      and ?rs4.0 = "[[''42'', ''7'']]"]
  have cycles: "map (\<lambda>k. poll_cycle (flaky k)) [0..<10] =
      [poll_cycle (flaky 0), poll_cycle (flaky 1), poll_cycle (flaky 2), poll_cycle (flaky 3),
       poll_cycle (flaky 4), poll_cycle (flaky 5), poll_cycle (flaky 6), poll_cycle (flaky 7),
       poll_cycle (flaky 8), poll_cycle (flaky 9)]"
  proof -
    have "[0..<10] = [0, 1, 2, 3, 4, 5, 6, 7, 8, 9 :: nat]" by code_simp
    then show ?thesis by (simp only: list.map)
  qed
  have run: "monitor_queries 10 Connected flaky
       = StillPolling (10, monitor_start @ poll_cycle (flaky 0) @ poll_cycle (flaky 1)
           @ poll_cycle (flaky 2) @ poll_cycle (flaky 3) @ poll_cycle (flaky 4)
           @ poll_cycle (flaky 5) @ poll_cycle (flaky 6) @ poll_cycle (flaky 7)
           @ poll_cycle (flaky 8) @ poll_cycle (flaky 9))"
    using w2 unfolding cycles by simp
  have cyc: "poll_cycle (flaky 2) =
      [Query StorageQuery, MonLog INFO ''Storage Query Result: '' (Value ''42''),
       Query IngestionLagQuery, MonLog INFO ''Ingestion Lag Query Result: '' (ResultRows [[''42'', ''7'']]),
       Query SummariseQuery, MonLog ERROR ''Failed to execute queries: '' (Detail ''connection reset''),
       MonSleep QUERY_INTERVAL]"
    by (simp add: poll_cycle_unfold flaky_def)
  have ok: "poll_cycle (flaky 3) =
      [Query StorageQuery, MonLog INFO ''Storage Query Result: '' (Value ''42''),
       Query IngestionLagQuery, MonLog INFO ''Ingestion Lag Query Result: '' (ResultRows [[''42'', ''7'']]),
       Query SummariseQuery, MonLog INFO ''Other Query Result: '' (ResultRows [[''42'', ''7'']]),
       Query EventCountQuery, MonLog INFO ''Other Query Result: '' (ResultRows [[''42'', ''7'']]),
       Query DurationQuery, MonLog INFO ''Duration Query Result: '' (ResultRows [[''42'', ''7'']]),
       MonSleep QUERY_INTERVAL]"
    using w3 r by blast
  have err: "error_lines (mon_logs_of (poll_cycle (flaky 2)))
       = [(ERROR, ''Failed to execute queries: '', Detail ''connection reset'')]"
    using w2 a by blast
  have q0: "queries_of (poll_cycle (flaky 0)) = query_order"
    using w0 b by blast
  show ?thesis
    using a b r(1) r(5) run cyc ok err q0 by simp
qed

end
